theory Spec2Isabelle
  imports Main "HOL-Library.AList" "HOL-Library.DAList" "HOL-Library.Multiset"
begin

section \<open>The shared client provider\<close>

text \<open>
  The package keeps two package-level variables, \<^verbatim>\<open>client *http.Client\<close> and
  \<^verbatim>\<open>once sync.Once\<close>. A pointer to a client is either \<^verbatim>\<open>nil\<close> or the address of
  a client object; the model writes the pointer as an \<open>option\<close> and tells client objects
  apart by what built them: the one object the lazy path builds (with its transport
  parameters), or an object of the caller's, named by a number.
  Durations are \<^verbatim>\<open>time.Duration\<close>, a count of nanoseconds; the code only stores and
  compares them, so they are integers here.
\<close>

definition Millisecond :: int where
  "Millisecond = 1000000"

definition Second :: int where
  "Second = 1000 * Millisecond"

record Transport =
  DialTimeout :: int
  DialKeepAlive :: int
  MaxIdleConns :: int
  IdleConnTimeout :: int
  MaxIdleConnsPerHost :: int
  MaxConnsPerHost :: int
  ForceAttemptHTTP2 :: bool
  TLSHandshakeTimeout :: int
  ExpectContinueTimeout :: int

datatype Client = PooledClient Transport | CustomClient nat

record globals =
  client :: "Client option"
  once :: bool

text \<open>The state of a freshly started process: no client, the guard not yet used.\<close>

definition initial :: globals where
  "initial = \<lparr>client = None, once = False\<rparr>"

text \<open>The transport literal of lines 27 to 39.\<close>

definition tr :: Transport where
  "tr = \<lparr>DialTimeout = 30 * Second, DialKeepAlive = 30 * Second, MaxIdleConns = 100,
     IdleConnTimeout = 90 * Second, MaxIdleConnsPerHost = 50, MaxConnsPerHost = 50,
     ForceAttemptHTTP2 = True, TLSHandshakeTimeout = 10 * Second,
     ExpectContinueTimeout = 1 * Second\<rparr>"

text \<open>
  \<^verbatim>\<open>once.Do(f)\<close> runs \<open>f\<close> when the guard has not been used, and marks it used; a later
  call does nothing.
\<close>

definition once_Do :: "(globals \<Rightarrow> globals) \<Rightarrow> globals \<Rightarrow> globals" where
  "once_Do f g = (if once g then g else (f g)\<lparr>once := True\<rparr>)"

definition GetHttpClient :: "globals \<Rightarrow> Client option \<times> globals" where
  "GetHttpClient g =
     (case client g of
        Some c \<Rightarrow> (Some c, g)
      | None \<Rightarrow>
          (let g' = once_Do (\<lambda>s. s\<lparr>client := Some (PooledClient tr)\<rparr>) g
           in (client g', g')))"

definition SetHttpClient :: "Client option \<Rightarrow> globals \<Rightarrow> globals" where
  "SetHttpClient c g = g\<lparr>client := c\<rparr>"

text \<open>
  A sequence of calls to the provider, run in order; the results of the
  \<^verbatim>\<open>GetHttpClient\<close> calls are collected in call order.
\<close>

datatype call = CallGet | CallSet "Client option"

fun run :: "call list \<Rightarrow> globals \<Rightarrow> Client option list \<times> globals" where
  "run [] g = ([], g)"
| "run (CallGet # cs) g =
     (let (c, g') = GetHttpClient g; (rs, g'') = run cs g' in (c # rs, g''))"
| "run (CallSet c # cs) g = run cs (SetHttpClient c g)"

section \<open>The request pipeline\<close>

subsection \<open>Values the pipeline handles\<close>

text \<open>
  Byte slices are lists of characters; a \<^verbatim>\<open>nil\<close> slice and an empty one are both \<open>[]\<close>
  (the code only passes them on). A \<^verbatim>\<open>context.Context\<close> is the background context, a
  context of the caller's, or one derived by \<^verbatim>\<open>context.WithTimeout\<close>. A logger is the
  package's \<^verbatim>\<open>Default\<close> or one of the caller's. An \<^verbatim>\<open>error\<close> carries its message.
  Contexts and loggers are interface values the code never compares with \<^verbatim>\<open>nil\<close>; the
  model takes them as present.
\<close>

type_synonym bytes = string

datatype Context = Background | CallerContext nat | context_WithTimeout Context int

datatype Interface = Default | CallerLogger nat

datatype error = errorString string

fun message :: "error \<Rightarrow> string" where
  "message (errorString s) = s"

text \<open>
  A Go \<^verbatim>\<open>map[string]string\<close> has one value for each key and no fixed iteration order:
  it is an association list with distinct keys, whose order stands for the order one
  \<^verbatim>\<open>range\<close> loop happens to visit the entries in.
\<close>

record requestOption =
  ctx :: Context
  timeout :: int
  data :: bytes
  headers :: "(string, string) alist"
  logger :: Interface
  slowThreshold :: int

text \<open>
  An option is a function that changes the options in place and returns an error;
  \<^verbatim>\<open>Request\<close> stops at the first error and never looks at the options again, so the
  model returns either the error or the changed options.
\<close>

datatype Option = optionFunc "requestOption \<Rightarrow> error + requestOption"

fun applyOption :: "Option \<Rightarrow> requestOption \<Rightarrow> error + requestOption" where
  "applyOption (optionFunc f) opts = f opts"

definition defaultRequestOptions :: requestOption where
  "defaultRequestOptions =
     \<lparr>ctx = Background, timeout = 5 * Second, data = [], headers = DAList.empty,
      logger = Default, slowThreshold = 0\<rparr>"

definition WithContext :: "Context \<Rightarrow> Option" where
  "WithContext c = optionFunc (\<lambda>opts. Inr (opts\<lparr>ctx := c\<rparr>))"

definition WithTimeout :: "int \<Rightarrow> Option" where
  "WithTimeout t = optionFunc (\<lambda>opts. Inr (opts\<lparr>timeout := t\<rparr>))"

text \<open>The loop of \<^verbatim>\<open>WithHeaders\<close>: \<^verbatim>\<open>opts.headers[k] = v\<close> for every entry.\<close>

definition assignAll :: "(string \<times> string) list \<Rightarrow> (string, string) alist \<Rightarrow> (string, string) alist" where
  "assignAll kvs m = fold (\<lambda>(k, v). DAList.update k v) kvs m"

definition WithHeaders :: "(string, string) alist \<Rightarrow> Option" where
  "WithHeaders hs =
     optionFunc (\<lambda>opts. Inr (opts\<lparr>headers := assignAll (DAList.impl_of hs) (headers opts)\<rparr>))"

definition WithData :: "bytes \<Rightarrow> Option" where
  "WithData d = optionFunc (\<lambda>opts. Inr (opts\<lparr>data := d\<rparr>))"

definition WithLogger :: "Interface \<Rightarrow> Option" where
  "WithLogger l = optionFunc (\<lambda>opts. Inr (opts\<lparr>logger := l\<rparr>))"

definition WithSlowThreshold :: "int \<Rightarrow> Option" where
  "WithSlowThreshold threshold = optionFunc (\<lambda>opts. Inr (opts\<lparr>slowThreshold := threshold\<rparr>))"

text \<open>The loop of lines 53 to 58.\<close>

fun applyOptions :: "Option list \<Rightarrow> requestOption \<Rightarrow> error + requestOption" where
  "applyOptions [] reqOpts = Inr reqOpts"
| "applyOptions (opt # options) reqOpts =
     (case applyOption opt reqOpts of
        Inl err \<Rightarrow> Inl err
      | Inr reqOpts' \<Rightarrow> applyOptions options reqOpts')"

subsection \<open>Requests, responses and what the pipeline does not own\<close>

text \<open>
  The outgoing request: its header maps a canonical header name to the values added
  under it, in the order they were added (no value: \<open>[]\<close>).
\<close>

record request =
  Method :: string
  URL :: string
  Body :: bytes
  Header :: "string \<Rightarrow> string list"
  reqContext :: Context

text \<open>
  A response body is a stream: its content, and the place and error of a read failure
  when reading it fails. \<^verbatim>\<open>io.ReadAll\<close> returns what it read before the failure, and the
  failure.
\<close>

record body =
  content :: bytes
  readFailure :: "(nat \<times> error) option"

definition ReadAll :: "body \<Rightarrow> bytes \<times> error option" where
  "ReadAll b =
     (case readFailure b of
        None \<Rightarrow> (content b, None)
      | Some (n, e) \<Rightarrow> (take n (content b), Some e))"

record response =
  StatusCode :: int
  RespBody :: body

text \<open>
  What the standard library and the network decide, given to the pipeline as
  parameters: whether \<^verbatim>\<open>http.NewRequest\<close> accepts a method and a URL, how a header
  name is made canonical, what \<^verbatim>\<open>client.Do\<close> returns, and the duration
  \<^verbatim>\<open>time.Since(start)\<close> reads at line 82. The order in which the \<^verbatim>\<open>range\<close> loop of
  line 70 visits the header map is the runtime's choice as well: \<open>rangeRank\<close> gives
  every key its place in that order, lower places first. Any order of the entries is the
  order of some \<open>rangeRank\<close>.
\<close>

record world =
  NewRequestErr :: "string \<Rightarrow> string \<Rightarrow> error option"
  CanonicalMIMEHeaderKey :: "string \<Rightarrow> string"
  Do :: "Client \<Rightarrow> request \<Rightarrow> error + response"
  Since :: int
  rangeRank :: "string \<Rightarrow> nat"

definition NewRequest :: "world \<Rightarrow> string \<Rightarrow> string \<Rightarrow> bytes \<Rightarrow> error + request" where
  "NewRequest w method url b =
     (case NewRequestErr w method url of
        Some err \<Rightarrow> Inl err
      | None \<Rightarrow>
          Inr \<lparr>Method = (if method = [] then ''GET'' else method), URL = url, Body = b,
               Header = (\<lambda>_. []), reqContext = Background\<rparr>)"

definition Header_Add :: "world \<Rightarrow> string \<Rightarrow> string \<Rightarrow> (string \<Rightarrow> string list) \<Rightarrow> string \<Rightarrow> string list" where
  "Header_Add w key val h =
     h(CanonicalMIMEHeaderKey w key := h (CanonicalMIMEHeaderKey w key) @ [val])"

text \<open>The entries of a map in the order the \<^verbatim>\<open>range\<close> loop of line 70 visits them.\<close>

definition rangeOver :: "world \<Rightarrow> (string, string) alist \<Rightarrow> (string \<times> string) list" where
  "rangeOver w hs = sort_key (\<lambda>kv. rangeRank w (fst kv)) (DAList.impl_of hs)"

text \<open>Lines 69 to 73: every entry of the options' header map is added to the request.\<close>

definition setHeaders :: "world \<Rightarrow> (string, string) alist \<Rightarrow> request \<Rightarrow> request" where
  "setHeaders w hs req =
     (if length (DAList.impl_of hs) \<noteq> 0
      then req\<lparr>Header := fold (\<lambda>(key, val). Header_Add w key val) (rangeOver w hs) (Header req)\<rparr>
      else req)"

subsection \<open>The decimal form of a status code\<close>

definition digit :: "nat \<Rightarrow> char" where
  "digit n = ''0123456789'' ! n"

function decimal :: "nat \<Rightarrow> string" where
  "decimal n = (if n < 10 then [digit n] else decimal (n div 10) @ [digit (n mod 10)])"
  by pat_completeness auto
termination
  by (relation "measure (\<lambda>n. n)") auto

declare decimal.simps [simp del]

text \<open>\<^verbatim>\<open>fmt.Sprintf("%d", i)\<close>.\<close>

definition Sprintf_d :: "int \<Rightarrow> string" where
  "Sprintf_d i = (if i < 0 then CHR ''-'' # decimal (nat (- i)) else decimal (nat i))"

definition non200 :: "int \<Rightarrow> error" where
  "non200 httpStatusCode =
     errorString (''non 200 response, response code: '' @ Sprintf_d httpStatusCode)"

subsection \<open>Logging\<close>

text \<open>
  A log event is one call of a method of the logger: which logger, which method
  (\<^verbatim>\<open>Warn\<close> or \<^verbatim>\<open>Debug\<close>), and the arguments.
\<close>

datatype LogLevel = Silent | Error | Warn | Info | Debug

record log_event =
  ev_logger :: Interface
  ev_level :: LogLevel
  ev_ctx :: Context
  ev_msg :: string
  ev_method :: string
  ev_url :: string
  ev_body :: bytes
  ev_reply :: bytes
  ev_err :: "error option"
  ev_dur :: int

text \<open>
  The deferred function of lines 83 to 89. It runs when \<^verbatim>\<open>Request\<close> returns, so it
  reads the results \<^verbatim>\<open>respBody\<close> and \<^verbatim>\<open>err\<close> as they are then.
\<close>

definition deferredLog ::
  "requestOption \<Rightarrow> string \<Rightarrow> string \<Rightarrow> bytes \<Rightarrow> error option \<Rightarrow> int \<Rightarrow> log_event" where
  "deferredLog reqOpts method url respBody err dur =
     (if slowThreshold reqOpts > 0 \<and> dur \<ge> slowThreshold reqOpts
      then \<lparr>ev_logger = logger reqOpts, ev_level = Warn, ev_ctx = ctx reqOpts,
            ev_msg = ''HTTP_REQUEST_SLOW_LOG'', ev_method = method, ev_url = url,
            ev_body = data reqOpts, ev_reply = respBody, ev_err = err, ev_dur = dur\<rparr>
      else \<lparr>ev_logger = logger reqOpts, ev_level = Debug, ev_ctx = ctx reqOpts,
            ev_msg = ''HTTP_REQUEST_DEBUG_LOG'', ev_method = method, ev_url = url,
            ev_body = data reqOpts, ev_reply = respBody, ev_err = err, ev_dur = dur\<rparr>)"

subsection \<open>Request, Get and Post\<close>

text \<open>
  What one call of \<^verbatim>\<open>Request\<close> does: what it returns (or that it panics, when the
  provider hands out a \<^verbatim>\<open>nil\<close> client and \<^verbatim>\<open>client.Do\<close> dereferences it), the log
  events it emits, the requests it hands to a client, the package variables afterwards,
  and which of its exits it took: the return of line 56 (an option failed), of line 63
  (the request could not be built), the panic of line 76 (no client), the return of
  line 78 (the dispatch failed), of line 95 (a status other than 200) or of line 99
  (success). The deferred function of line 83 is registered only on the way to the last
  two.
\<close>

datatype outcome = Return int bytes "error option" | Panic

datatype exit =
  OptionFailed | ConstructionFailed | NilClient | DispatchFailed | StatusNot200 | StatusOK

record result =
  ret :: outcome
  logs :: "log_event list"
  sent :: "(Client \<times> request) list"
  after :: globals
  exit :: exit

definition Request :: "world \<Rightarrow> globals \<Rightarrow> string \<Rightarrow> string \<Rightarrow> Option list \<Rightarrow> result" where
  "Request w g method url options =
     (case applyOptions options defaultRequestOptions of
        Inl err \<Rightarrow>
          \<lparr>ret = Return 0 [] (Some err), logs = [], sent = [], after = g, exit = OptionFailed\<rparr>
      | Inr reqOpts0 \<Rightarrow>
          (case NewRequest w method url (data reqOpts0) of
             Inl err \<Rightarrow>
               \<lparr>ret = Return 0 [] (Some err), logs = [], sent = [], after = g,
                exit = ConstructionFailed\<rparr>
           | Inr req0 \<Rightarrow>
               (let reqOpts = reqOpts0\<lparr>ctx := context_WithTimeout (ctx reqOpts0) (timeout reqOpts0)\<rparr>;
                    req = setHeaders w (headers reqOpts) (req0\<lparr>reqContext := ctx reqOpts\<rparr>)
                in (case GetHttpClient g of
                      (None, g') \<Rightarrow>
                        \<lparr>ret = Panic, logs = [], sent = [], after = g', exit = NilClient\<rparr>
                    | (Some c, g') \<Rightarrow>
                        (case Do w c req of
                           Inl err \<Rightarrow>
                             \<lparr>ret = Return 0 [] (Some err), logs = [], sent = [(c, req)],
                              after = g', exit = DispatchFailed\<rparr>
                         | Inr resp \<Rightarrow>
                             (let dur = Since w;
                                  httpStatusCode = StatusCode resp
                              in if httpStatusCode \<noteq> 200
                                 then
                                   (let err = Some (non200 httpStatusCode)
                                    in \<lparr>ret = Return httpStatusCode [] err,
                                        logs = [deferredLog reqOpts method url [] err dur],
                                        sent = [(c, req)], after = g', exit = StatusNot200\<rparr>)
                                 else
                                   (let respBody = fst (ReadAll (RespBody resp))
                                    in \<lparr>ret = Return httpStatusCode respBody None,
                                        logs = [deferredLog reqOpts method url respBody None dur],
                                        sent = [(c, req)], after = g', exit = StatusOK\<rparr>)))))))"

definition Get :: "world \<Rightarrow> globals \<Rightarrow> Context \<Rightarrow> string \<Rightarrow> Option list \<Rightarrow> result" where
  "Get w g c url options = Request w g ''GET'' url (options @ [WithContext c])"

definition defaultHeader :: "(string, string) alist" where
  "defaultHeader = DAList.update ''Content-Type'' ''application/json'' DAList.empty"

definition Post :: "world \<Rightarrow> globals \<Rightarrow> Context \<Rightarrow> string \<Rightarrow> bytes \<Rightarrow> Option list \<Rightarrow> result" where
  "Post w g c url d options =
     Request w g ''POST'' url ([WithHeaders defaultHeader, WithData d, WithContext c] @ options)"

subsection \<open>Servers to run the pipeline against\<close>

text \<open>
  Four worlds in the manner of the repository's test servers: one answers 200 with a
  body, one answers 500 with a body, one answers 200 and then fails while the body is
  read, and one cannot be reached. Header names are left as they are, and the header
  map is visited in the order its keys were first assigned. A fifth world answers 200,
  writes the header name \<open>x-test\<close> as \<open>X-Test\<close>, and visits \<open>x-test\<close> before
  every other key.
\<close>

definition okResponse :: response where
  "okResponse = \<lparr>StatusCode = 200, RespBody = \<lparr>content = ''pong'', readFailure = None\<rparr>\<rparr>"

definition errorResponse :: response where
  "errorResponse = \<lparr>StatusCode = 500, RespBody = \<lparr>content = ''oops'', readFailure = None\<rparr>\<rparr>"

definition cutResponse :: response where
  "cutResponse =
     \<lparr>StatusCode = 200,
      RespBody = \<lparr>content = ''pong'', readFailure = Some (2, errorString ''unexpected EOF'')\<rparr>\<rparr>"

definition server :: "(error + response) \<Rightarrow> int \<Rightarrow> world" where
  "server answer dur =
     \<lparr>NewRequestErr = (\<lambda>method url. None), CanonicalMIMEHeaderKey = (\<lambda>key. key),
      Do = (\<lambda>c req. answer), Since = dur, rangeRank = (\<lambda>key. 1)\<rparr>"

definition okServer :: world where
  "okServer = server (Inr okResponse) (10 * Millisecond)"

definition errorServer :: world where
  "errorServer = server (Inr errorResponse) (10 * Millisecond)"

definition cutServer :: world where
  "cutServer = server (Inr cutResponse) (10 * Millisecond)"

definition noServer :: world where
  "noServer = server (Inl (errorString ''no such host'')) (10 * Millisecond)"

definition foldingServer :: world where
  "foldingServer =
     okServer\<lparr>CanonicalMIMEHeaderKey := (\<lambda>key. if key = ''x-test'' then ''X-Test'' else key),
              rangeRank := (\<lambda>key. if key = ''x-test'' then 0 else 1)\<rparr>"

section \<open>Facts\<close>

subsection \<open>Facts about the provider\<close>

lemma GetHttpClient_stored:
  "client g = Some c \<Longrightarrow> GetHttpClient g = (Some c, g)"
  by (simp add: GetHttpClient_def)

lemma GetHttpClient_used_guard:
  "client g = None \<Longrightarrow> once g \<Longrightarrow> GetHttpClient g = (None, g)"
  by (simp add: GetHttpClient_def once_Do_def)

lemma GetHttpClient_lazy:
  "client g = None \<Longrightarrow> \<not> once g \<Longrightarrow>
   GetHttpClient g = (Some (PooledClient tr), g\<lparr>client := Some (PooledClient tr), once := True\<rparr>)"
  by (simp add: GetHttpClient_def once_Do_def Let_def)

lemma once_GetHttpClient:
  "client g = None \<or> once g \<Longrightarrow> once (snd (GetHttpClient g))"
  by (auto simp: GetHttpClient_def once_Do_def Let_def split: option.splits)

lemma once_kept_GetHttpClient:
  "once g \<Longrightarrow> once (snd (GetHttpClient g))"
  by (simp add: once_GetHttpClient)

lemma once_kept_run:
  "once g \<Longrightarrow> once (snd (run cs g))"
proof (induction cs arbitrary: g)
  case Nil
  then show ?case by simp
next
  case (Cons a cs)
  show ?case
  proof (cases a)
    case CallGet
    have "once (snd (GetHttpClient g))"
      using Cons.prems by (rule once_kept_GetHttpClient)
    then have "once (snd (run cs (snd (GetHttpClient g))))"
      by (rule Cons.IH)
    then show ?thesis
      using CallGet by (simp add: split_beta)
  next
    case (CallSet c)
    have "once (SetHttpClient c g)"
      using Cons.prems by (simp add: SetHttpClient_def)
    then have "once (snd (run cs (SetHttpClient c g)))"
      by (rule Cons.IH)
    then show ?thesis
      using CallSet by simp
  qed
qed

lemma run_append:
  "run (cs @ ds) g =
     (fst (run cs g) @ fst (run ds (snd (run cs g))), snd (run ds (snd (run cs g))))"
proof (induction cs arbitrary: g)
  case Nil
  then show ?case by simp
next
  case (Cons a cs)
  then show ?case
    by (cases a) (simp_all add: split_beta)
qed

lemma run_gets_stored:
  "client g = Some c \<Longrightarrow> run (replicate n CallGet) g = (replicate n (Some c), g)"
  by (induction n) (simp_all add: GetHttpClient_stored)

lemma run_gets_used_guard:
  "client g = None \<Longrightarrow> once g \<Longrightarrow> run (replicate n CallGet) g = (replicate n None, g)"
  by (induction n) (simp_all add: GetHttpClient_used_guard)


subsection \<open>Facts about the pipeline\<close>

lemmas Request_splits = sum.splits option.splits prod.splits if_splits

lemmas run_server =
  Request_def NewRequest_def setHeaders_def rangeOver_def GetHttpClient_def once_Do_def
  ReadAll_def
  defaultRequestOptions_def initial_def server_def Let_def
  DAList.empty.rep_eq DAList.update.rep_eq assignAll_def
  WithContext_def WithHeaders_def WithData_def WithSlowThreshold_def WithLogger_def
  Header_Add_def deferredLog_def

text \<open>The exits of \<^verbatim>\<open>Request\<close>, each under the condition that leads to it.\<close>

lemma Request_OptionFailed:
  "applyOptions options defaultRequestOptions = Inl e \<Longrightarrow>
   Request w g method url options =
     \<lparr>ret = Return 0 [] (Some e), logs = [], sent = [], after = g, exit = OptionFailed\<rparr>"
  by (simp add: Request_def)

lemma Request_ConstructionFailed:
  "applyOptions options defaultRequestOptions = Inr reqOpts \<Longrightarrow>
   NewRequestErr w method url = Some e \<Longrightarrow>
   Request w g method url options =
     \<lparr>ret = Return 0 [] (Some e), logs = [], sent = [], after = g, exit = ConstructionFailed\<rparr>"
  by (simp add: Request_def NewRequest_def)

lemma Request_NilClient:
  "applyOptions options defaultRequestOptions = Inr reqOpts \<Longrightarrow>
   NewRequestErr w method url = None \<Longrightarrow> client g = None \<Longrightarrow> once g \<Longrightarrow>
   Request w g method url options =
     \<lparr>ret = Panic, logs = [], sent = [], after = g, exit = NilClient\<rparr>"
  by (simp add: Request_def NewRequest_def GetHttpClient_used_guard)

lemma Request_DispatchFailed:
  "sent (Request w g method url options) = [(c, req)] \<Longrightarrow> Do w c req = Inl e \<Longrightarrow>
   ret (Request w g method url options) = Return 0 [] (Some e) \<and>
   logs (Request w g method url options) = [] \<and>
   exit (Request w g method url options) = DispatchFailed"
  by (auto simp: Request_def Let_def split: Request_splits)

lemma Request_response_exit:
  "sent (Request w g method url options) = [(c, req)] \<Longrightarrow> Do w c req = Inr resp \<Longrightarrow>
   exit (Request w g method url options) =
     (if StatusCode resp \<noteq> 200 then StatusNot200 else StatusOK)"
  by (auto simp: Request_def Let_def split: Request_splits)

lemma Request_sent_at_most_one:
  "length (sent (Request w g method url options)) \<le> 1"
  by (auto simp: Request_def Let_def split: Request_splits)

text \<open>The one request a call hands to the client, in terms of the resolved options.\<close>

lemma sent_request:
  assumes "sent (Request w g method url options) = [(c, req)]"
  shows "\<exists>reqOpts. applyOptions options defaultRequestOptions = Inr reqOpts \<and>
     req = setHeaders w (headers reqOpts)
       \<lparr>Method = (if method = [] then ''GET'' else method), URL = url, Body = data reqOpts,
        Header = (\<lambda>_. []), reqContext = context_WithTimeout (ctx reqOpts) (timeout reqOpts)\<rparr>"
  using assms
  by (auto simp: Request_def Let_def NewRequest_def split: Request_splits)

lemma fold_Header_Add:
  "fold (\<lambda>(key, val). Header_Add w key val) kvs h K =
     h K @ map snd (filter (\<lambda>kv. CanonicalMIMEHeaderKey w (fst kv) = K) kvs)"
  by (induction kvs arbitrary: h) (auto simp: Header_Add_def)

lemma Header_setHeaders:
  "Header (setHeaders w hs req) K =
     Header req K @
     map snd (filter (\<lambda>kv. CanonicalMIMEHeaderKey w (fst kv) = K) (rangeOver w hs))"
  by (simp add: setHeaders_def rangeOver_def fold_Header_Add)

text \<open>
  Whatever the order of the loop, the values under a canonical name are the values of
  the map's entries whose keys have that canonical name, one for each entry.
\<close>

lemma mset_Header_setHeaders:
  "mset (Header (setHeaders w hs req) K) =
     mset (Header req K) +
     mset (map snd (filter (\<lambda>kv. CanonicalMIMEHeaderKey w (fst kv) = K) (DAList.impl_of hs)))"
  by (simp add: Header_setHeaders rangeOver_def)

text \<open>When one key of the map has the canonical name, the order does not matter.\<close>

lemma Header_setHeaders_one_key:
  assumes "filter (\<lambda>kv. CanonicalMIMEHeaderKey w (fst kv) = K) (DAList.impl_of hs) = [(k, v)]"
  shows "Header (setHeaders w hs req) K = Header req K @ [v]"
  using assms by (simp add: Header_setHeaders rangeOver_def filter_sort)

lemma Header_setHeaders_no_key:
  assumes "filter (\<lambda>kv. CanonicalMIMEHeaderKey w (fst kv) = K) (DAList.impl_of hs) = []"
  shows "Header (setHeaders w hs req) K = Header req K"
  using assms by (simp add: Header_setHeaders rangeOver_def filter_sort)

lemma setHeaders_other:
  "Method (setHeaders w hs req) = Method req"
  "URL (setHeaders w hs req) = URL req"
  "Body (setHeaders w hs req) = Body req"
  "reqContext (setHeaders w hs req) = reqContext req"
  by (simp_all add: setHeaders_def)

text \<open>Assigning the entries of one map into another: the assigned value wins.\<close>

lemma assignAll_lookup:
  "DAList.lookup (assignAll kvs m) k =
     (case map_of (rev kvs) k of Some v \<Rightarrow> Some v | None \<Rightarrow> DAList.lookup m k)"
  unfolding assignAll_def
  by (induction kvs arbitrary: m) (auto simp: DAList.lookup_update split: option.splits)

lemma map_of_rev_distinct:
  "distinct (map fst kvs) \<Longrightarrow> map_of (rev kvs) = map_of kvs"
  by (rule map_of_inject_set [THEN iffD2]) (simp_all add: rev_map [symmetric])

lemma lookup_assignAll_impl_of:
  "DAList.lookup (assignAll (DAList.impl_of hs) m) k =
     (case DAList.lookup hs k of Some v \<Rightarrow> Some v | None \<Rightarrow> DAList.lookup m k)"
  using assignAll_lookup [of "DAList.impl_of hs" m k]
  by (simp add: map_of_rev_distinct DAList.lookup.rep_eq)

lemma filter_key:
  "distinct (map fst kvs) \<Longrightarrow> map_of kvs k = Some v \<Longrightarrow>
   filter (\<lambda>kv. fst kv = k) kvs = [(k, v)]"
  by (induction kvs) (auto simp: filter_empty_conv rev_image_eqI split: if_splits)

lemma entries_of_key:
  "DAList.lookup m k = Some v \<Longrightarrow> filter (\<lambda>kv. fst kv = k) (DAList.impl_of m) = [(k, v)]"
  by (simp add: filter_key DAList.lookup.rep_eq)

lemma applyOptions_append:
  "applyOptions (xs @ ys) reqOpts =
     (case applyOptions xs reqOpts of
        Inl e \<Rightarrow> Inl e
      | Inr reqOpts' \<Rightarrow> applyOptions ys reqOpts')"
  by (induction xs arbitrary: reqOpts) (auto split: sum.splits)

lemma applyOptions_WithHeaders_last:
  assumes "applyOptions (pre @ [WithHeaders hs]) reqOpts0 = Inr reqOpts"
    and "DAList.lookup hs k = Some v"
  shows "DAList.lookup (headers reqOpts) k = Some v"
  using assms
  by (auto simp: applyOptions_append WithHeaders_def lookup_assignAll_impl_of split: sum.splits)

lemma applyOptions_WithContext_last:
  assumes "applyOptions (pre @ [WithContext c]) reqOpts0 = Inr reqOpts"
  shows "ctx reqOpts = c"
  using assms
  by (auto simp: applyOptions_append WithContext_def split: sum.splits)




text \<open>
  \<^verbatim>\<open>Get\<close> puts its own context option after the caller's options, so the request
  always carries the context given as the first argument.
\<close>

lemma Get_context:
  assumes "sent (Get w g c url options) = [(cl, req)]"
  shows "\<exists>t. reqContext req = context_WithTimeout c t"
proof -
  obtain reqOpts where r: "applyOptions (options @ [WithContext c]) defaultRequestOptions = Inr reqOpts"
    and req: "req = setHeaders w (headers reqOpts)
       \<lparr>Method = (if ''GET'' = [] then ''GET'' else ''GET''), URL = url, Body = data reqOpts,
        Header = (\<lambda>_. []), reqContext = context_WithTimeout (ctx reqOpts) (timeout reqOpts)\<rparr>"
    using sent_request [OF assms [unfolded Get_def]] by blast
  have "ctx reqOpts = c"
    using r by (rule applyOptions_WithContext_last)
  then show ?thesis
    using req by (simp add: setHeaders_other)
qed

subsection \<open>Facts about the order of the range loop\<close>

text \<open>
  Every order of a map's entries is the order of some \<open>rangeRank\<close>: the loop of
  line 70 is free to visit the entries in any order.
\<close>

lemma place_nth:
  "distinct ks \<Longrightarrow> i < length ks \<Longrightarrow> length (takeWhile (\<lambda>x. x \<noteq> ks ! i) ks) = i"
proof (induction ks arbitrary: i)
  case Nil
  then show ?case by simp
next
  case (Cons a ks)
  then show ?case
    by (cases i) auto
qed

lemma filter_same:
  "filter (\<lambda>x. k = x) zs = replicate (count (mset zs) k) k"
  by (induction zs) auto

lemma any_range_order:
  assumes perm: "mset ys = mset (DAList.impl_of hs)"
  shows "\<exists>rank. rangeOver (w\<lparr>rangeRank := rank\<rparr>) hs = ys"
proof -
  let ?xs = "DAList.impl_of hs"
  let ?rank = "\<lambda>k. length (takeWhile (\<lambda>x. x \<noteq> k) (map fst ys))"
  let ?f = "\<lambda>kv. ?rank (fst kv)"
  have dx: "distinct (map fst ?xs)" by simp
  have "mset (map fst ys) = mset (map fst ?xs)"
    using perm by (metis mset_map)
  then have dy: "distinct (map fst ys)"
    using dx by (metis mset_eq_imp_distinct_iff)
  have ranks: "map ?f ys = [0..<length ys]"
  proof (rule nth_equalityI)
    show "length (map ?f ys) = length [0..<length ys]" by simp
  next
    fix i assume "i < length (map ?f ys)"
    then have i: "i < length (map fst ys)" by simp
    have "?rank (map fst ys ! i) = i"
      using dy i by (rule place_nth)
    then show "map ?f ys ! i = [0..<length ys] ! i"
      using i by simp
  qed
  have sorted: "sorted (map ?f ys)"
    by (simp only: ranks sorted_upt)
  have inj: "inj_on ?f (set ys)"
    by (metis (no_types, lifting) ranks distinct_map distinct_upt)
  have same: "filter (\<lambda>x. ?f k = ?f x) ys = filter (\<lambda>x. ?f k = ?f x) ?xs" if "k \<in> set ys" for k
  proof -
    have sets: "set ?xs = set ys"
      using perm by (metis set_mset_mset)
    have "\<And>x. x \<in> set ys \<Longrightarrow> (?f k = ?f x) = (k = x)"
      using inj that by (auto dest: inj_onD)
    then have a: "filter (\<lambda>x. ?f k = ?f x) ys = filter (\<lambda>x. k = x) ys"
      by (intro filter_cong) auto
    have "\<And>x. x \<in> set ?xs \<Longrightarrow> (?f k = ?f x) = (k = x)"
      using inj that sets by (auto dest: inj_onD)
    then have b: "filter (\<lambda>x. ?f k = ?f x) ?xs = filter (\<lambda>x. k = x) ?xs"
      by (intro filter_cong) auto
    have "filter (\<lambda>x. k = x) ys = filter (\<lambda>x. k = x) ?xs"
      by (simp add: filter_same perm)
    then show ?thesis using a b by simp
  qed
  have "sort_key ?f ?xs = ys"
    using perm same sorted by (rule properties_for_sort_key)
  then have "rangeOver (w\<lparr>rangeRank := ?rank\<rparr>) hs = ys"
    by (simp add: rangeOver_def)
  then show ?thesis by blast
qed


subsection \<open>Facts about options that leave a header key alone\<close>

lemma applyOptions_keeps_key:
  assumes "\<forall>opt \<in> set post. \<forall>o1 o2. applyOption opt o1 = Inr o2 \<longrightarrow>
             DAList.lookup (headers o2) k = DAList.lookup (headers o1) k"
    and "applyOptions post reqOpts0 = Inr reqOpts"
  shows "DAList.lookup (headers reqOpts) k = DAList.lookup (headers reqOpts0) k"
  using assms
proof (induction post arbitrary: reqOpts0)
  case Nil
  then show ?case by simp
next
  case (Cons opt post)
  from Cons.prems(2) obtain o1 where step: "applyOption opt reqOpts0 = Inr o1"
    and rest: "applyOptions post o1 = Inr reqOpts"
    by (auto split: sum.splits)
  have "DAList.lookup (headers o1) k = DAList.lookup (headers reqOpts0) k"
    using Cons.prems(1) step by simp
  moreover have "DAList.lookup (headers reqOpts) k = DAList.lookup (headers o1) k"
    using Cons.prems(1) rest by (intro Cons.IH) simp_all
  ultimately show ?case by simp
qed

lemma scalar_options_keep_headers:
  "applyOption (WithContext c) o1 = Inr o2 \<Longrightarrow> headers o2 = headers o1"
  "applyOption (WithTimeout t) o1 = Inr o2 \<Longrightarrow> headers o2 = headers o1"
  "applyOption (WithData d) o1 = Inr o2 \<Longrightarrow> headers o2 = headers o1"
  "applyOption (WithLogger l) o1 = Inr o2 \<Longrightarrow> headers o2 = headers o1"
  "applyOption (WithSlowThreshold t) o1 = Inr o2 \<Longrightarrow> headers o2 = headers o1"
  by (auto simp: WithContext_def WithTimeout_def WithData_def WithLogger_def WithSlowThreshold_def)

lemma WithHeaders_keeps_other_keys:
  "DAList.lookup hs k = None \<Longrightarrow> applyOption (WithHeaders hs) o1 = Inr o2 \<Longrightarrow>
   DAList.lookup (headers o2) k = DAList.lookup (headers o1) k"
  by (auto simp: WithHeaders_def lookup_assignAll_impl_of)

lemma applyOptions_WithHeaders_then_kept:
  assumes opts: "applyOptions (pre @ WithHeaders hs # post) reqOpts0 = Inr reqOpts"
    and look: "DAList.lookup hs k = Some v"
    and keep: "\<forall>opt \<in> set post. \<forall>o1 o2. applyOption opt o1 = Inr o2 \<longrightarrow>
             DAList.lookup (headers o2) k = DAList.lookup (headers o1) k"
  shows "DAList.lookup (headers reqOpts) k = Some v"
proof -
  have "applyOptions ((pre @ [WithHeaders hs]) @ post) reqOpts0 = Inr reqOpts"
    using opts by simp
  then obtain o1 where a: "applyOptions (pre @ [WithHeaders hs]) reqOpts0 = Inr o1"
    and b: "applyOptions post o1 = Inr reqOpts"
    by (auto simp only: applyOptions_append split: sum.splits)
  have "DAList.lookup (headers o1) k = Some v"
    using a look by (rule applyOptions_WithHeaders_last)
  moreover have "DAList.lookup (headers reqOpts) k = DAList.lookup (headers o1) k"
    using keep b by (rule applyOptions_keeps_key)
  ultimately show ?thesis by simp
qed

subsection \<open>Facts about the decimal form\<close>

text \<open>Reading the digits of the decimal form back gives the number.\<close>

lemma digit_value:
  assumes "d < 10"
  shows "of_char (digit d) = (48 + d :: nat)"
proof -
  have "d \<in> {0, 1, 2, 3, 4, 5, 6, 7, 8, 9}"
    using assms by auto
  then show ?thesis
    by (auto simp: digit_def)
qed

lemma decimal_value:
  "foldl (\<lambda>a ch. 10 * a + (of_char ch - 48)) 0 (decimal n) = n"
proof (induction n rule: decimal.induct)
  case (1 n)
  show ?case
  proof (cases "n < 10")
    case True
    then show ?thesis
      by (subst decimal.simps) (simp add: digit_value)
  next
    case False
    then have "foldl (\<lambda>a ch. 10 * a + (of_char ch - 48)) 0 (decimal (n div 10)) = n div 10"
      using 1 by simp
    then show ?thesis
      using False by (subst decimal.simps) (simp add: digit_value)
  qed
qed

lemma Sprintf_d_value:
  "0 \<le> i \<Longrightarrow> int (foldl (\<lambda>a ch. 10 * a + (of_char ch - 48)) 0 (Sprintf_d i)) = i"
  by (simp add: Sprintf_d_def decimal_value)

section \<open>The claims\<close>

subsection \<open>Logging\<close>

text \<open>
  An unreachable server: \<^verbatim>\<open>client.Do\<close> fails, \<^verbatim>\<open>Request\<close> returns at line 78, before
  the deferred logging function of line 83 exists, and nothing is logged.
\<close>

theorem Request_dispatch_failure_logs_nothing:
  "exit (Request noServer initial ''GET'' ''http://invalid-url-that-does-not-exist'' []) = DispatchFailed \<and>
   length (logs (Request noServer initial ''GET'' ''http://invalid-url-that-does-not-exist'' [])) = 0"
  by (simp add: noServer_def run_server)

text \<open>
  C1, amended. Every call of \<^verbatim>\<open>Request\<close> emits at most one log event: exactly one, a
  \<^verbatim>\<open>Warn\<close> or a \<^verbatim>\<open>Debug\<close> call, when \<^verbatim>\<open>client.Do\<close> returned a response (the exits for a
  status other than 200 and for success), and none on the earlier exits (an option
  failed, the request could not be built, no client, the dispatch failed).
\<close>

theorem Request_logs_once_after_response:
  "length (logs (Request w g method url options)) =
     (if exit (Request w g method url options) \<in> {StatusNot200, StatusOK} then 1 else 0) \<and>
   set (map ev_level (logs (Request w g method url options))) \<subseteq> {Warn, Debug}"
  by (auto simp: Request_def Let_def deferredLog_def split: Request_splits)

theorem Request_logs_once_after_response_witness:
  "exit (Request okServer initial ''GET'' ''http://h/ok'' []) = StatusOK \<and>
   length (logs (Request okServer initial ''GET'' ''http://h/ok'' [])) = 1 \<and>
   exit (Request errorServer initial ''GET'' ''http://h/error'' []) = StatusNot200 \<and>
   length (logs (Request errorServer initial ''GET'' ''http://h/error'' [])) = 1"
  using Request_logs_once_after_response [of okServer initial "''GET''" "''http://h/ok''" "[]"]
    Request_logs_once_after_response [of errorServer initial "''GET''" "''http://h/error''" "[]"]
  by (simp add: okServer_def okResponse_def errorServer_def errorResponse_def run_server)

text \<open>
  A threshold that is set, not zero, and not above the duration, yet the event is a
  \<^verbatim>\<open>Debug\<close> one: the threshold is negative, and line 84 asks for a positive one.
\<close>

theorem negative_slowThreshold_logs_Debug:
  "map ev_level (logs (Request okServer initial ''GET'' ''http://h/fast'' [WithSlowThreshold (- 1)])) = [Debug] \<and>
   (- 1 :: int) \<noteq> 0 \<and> Since okServer \<ge> - 1"
  by (simp add: okServer_def okResponse_def run_server Millisecond_def)

text \<open>
  C6, amended. For every call of \<^verbatim>\<open>Request\<close> that reaches the logging step (the
  dispatch returned a response): when the resolved \<^verbatim>\<open>slowThreshold\<close> is positive and the
  measured duration is at least the threshold, the one event emitted is a \<^verbatim>\<open>Warn\<close> call
  tagged \<^verbatim>\<open>HTTP_REQUEST_SLOW_LOG\<close>; otherwise it is a \<^verbatim>\<open>Debug\<close> call tagged
  \<^verbatim>\<open>HTTP_REQUEST_DEBUG_LOG\<close>. A threshold of zero or below switches the slow
  classification off.
\<close>

theorem slow_request_classification:
  assumes "applyOptions options defaultRequestOptions = Inr reqOpts"
    and "sent (Request w g method url options) = [(c, req)]"
    and "Do w c req = Inr resp"
  shows "map ev_level (logs (Request w g method url options)) =
           [if 0 < slowThreshold reqOpts \<and> slowThreshold reqOpts \<le> Since w then Warn else Debug] \<and>
         map ev_msg (logs (Request w g method url options)) =
           [if 0 < slowThreshold reqOpts \<and> slowThreshold reqOpts \<le> Since w
            then ''HTTP_REQUEST_SLOW_LOG'' else ''HTTP_REQUEST_DEBUG_LOG''] \<and>
         map ev_dur (logs (Request w g method url options)) = [Since w]"
  using assms
  by (auto simp: Request_def Let_def deferredLog_def split: Request_splits)

theorem slow_request_classification_witness:
  "applyOptions [WithSlowThreshold (5 * Millisecond)] defaultRequestOptions =
     Inr (defaultRequestOptions\<lparr>slowThreshold := 5 * Millisecond\<rparr>) \<and>
   length (sent (Request okServer initial ''GET'' ''http://h/slow'' [WithSlowThreshold (5 * Millisecond)])) = 1 \<and>
   Do okServer
     (fst (hd (sent (Request okServer initial ''GET'' ''http://h/slow'' [WithSlowThreshold (5 * Millisecond)]))))
     (snd (hd (sent (Request okServer initial ''GET'' ''http://h/slow'' [WithSlowThreshold (5 * Millisecond)]))))
     = Inr okResponse \<and>
   map ev_level (logs (Request okServer initial ''GET'' ''http://h/slow'' [WithSlowThreshold (5 * Millisecond)]))
     = [Warn]"
  using slow_request_classification
    [of "[WithSlowThreshold (5 * Millisecond)]" "defaultRequestOptions\<lparr>slowThreshold := 5 * Millisecond\<rparr>"
        okServer initial "''GET''" "''http://h/slow''"
        "fst (hd (sent (Request okServer initial ''GET'' ''http://h/slow'' [WithSlowThreshold (5 * Millisecond)])))"
        "snd (hd (sent (Request okServer initial ''GET'' ''http://h/slow'' [WithSlowThreshold (5 * Millisecond)])))"
        okResponse]
  by (simp add: okServer_def okResponse_def run_server Millisecond_def)

subsection \<open>What Request returns\<close>

text \<open>
  A server that answers 500 with the body \<open>oops\<close>: \<^verbatim>\<open>Request\<close> returns at line 95,
  before line 98 reads the body, so the body it returns is empty and not the
  response's.
\<close>

theorem Request_500_returns_no_body:
  "ret (Request errorServer initial ''GET'' ''http://h/error'' []) =
     Return 500 [] (Some (errorString ''non 200 response, response code: 500'')) \<and>
   fst (ReadAll (RespBody errorResponse)) = ''oops''"
  by (simp add: errorServer_def errorResponse_def run_server non200_def Sprintf_d_def
      decimal.simps digit_def)

text \<open>
  C4, amended. For every dispatched request whose response has a status code other
  than 200, \<^verbatim>\<open>Request\<close> returns that code, an empty body (the response body is not read)
  and an error that is not \<^verbatim>\<open>nil\<close>, whose message is
  \<^verbatim>\<open>non 200 response, response code: \<close> followed by the code in decimal.
\<close>

theorem Request_non200:
  assumes "sent (Request w g method url options) = [(c, req)]"
    and "Do w c req = Inr resp"
    and "StatusCode resp \<noteq> 200"
  shows "ret (Request w g method url options) =
           Return (StatusCode resp) [] (Some (non200 (StatusCode resp))) \<and>
         message (non200 (StatusCode resp)) =
           ''non 200 response, response code: '' @ Sprintf_d (StatusCode resp)"
  using assms
  by (auto simp: Request_def Let_def non200_def split: Request_splits)

theorem Request_non200_witness:
  "length (sent (Request errorServer initial ''GET'' ''http://h/error'' [])) = 1 \<and>
   Do errorServer
     (fst (hd (sent (Request errorServer initial ''GET'' ''http://h/error'' []))))
     (snd (hd (sent (Request errorServer initial ''GET'' ''http://h/error'' []))))
     = Inr errorResponse \<and>
   StatusCode errorResponse \<noteq> 200 \<and>
   ret (Request errorServer initial ''GET'' ''http://h/error'' []) =
     Return 500 [] (Some (non200 500)) \<and>
   message (non200 500) = ''non 200 response, response code: 500''"
  using Request_non200
    [of errorServer initial "''GET''" "''http://h/error''" "[]"
        "fst (hd (sent (Request errorServer initial ''GET'' ''http://h/error'' [])))"
        "snd (hd (sent (Request errorServer initial ''GET'' ''http://h/error'' [])))"
        errorResponse]
  by (simp add: errorServer_def errorResponse_def run_server non200_def Sprintf_d_def
      decimal.simps digit_def)

text \<open>
  C5. For every dispatched request whose response has the status code 200,
  \<^verbatim>\<open>Request\<close> returns 200, the body as \<^verbatim>\<open>io.ReadAll\<close> drained it, and a \<^verbatim>\<open>nil\<close> error:
  the whole body when reading succeeds, and what was read before the failure when
  reading fails, the read failure being dropped.
\<close>

theorem Request_200:
  assumes "sent (Request w g method url options) = [(c, req)]"
    and "Do w c req = Inr resp"
    and "StatusCode resp = 200"
  shows "ret (Request w g method url options) =
           Return 200
             (case readFailure (RespBody resp) of
                None \<Rightarrow> content (RespBody resp)
              | Some (n, e) \<Rightarrow> take n (content (RespBody resp)))
             None"
  using assms
  by (auto simp: Request_def Let_def ReadAll_def split: Request_splits)

theorem Request_200_witness:
  "length (sent (Request okServer initial ''GET'' ''http://h/ok'' [])) = 1 \<and>
   Do okServer
     (fst (hd (sent (Request okServer initial ''GET'' ''http://h/ok'' []))))
     (snd (hd (sent (Request okServer initial ''GET'' ''http://h/ok'' []))))
     = Inr okResponse \<and>
   StatusCode okResponse = 200 \<and>
   ret (Request okServer initial ''GET'' ''http://h/ok'' []) = Return 200 ''pong'' None \<and>
   length (sent (Request cutServer initial ''GET'' ''http://h/cut'' [])) = 1 \<and>
   Do cutServer
     (fst (hd (sent (Request cutServer initial ''GET'' ''http://h/cut'' []))))
     (snd (hd (sent (Request cutServer initial ''GET'' ''http://h/cut'' []))))
     = Inr cutResponse \<and>
   StatusCode cutResponse = 200 \<and>
   ret (Request cutServer initial ''GET'' ''http://h/cut'' []) = Return 200 ''po'' None"
  using Request_200
    [of okServer initial "''GET''" "''http://h/ok''" "[]"
        "fst (hd (sent (Request okServer initial ''GET'' ''http://h/ok'' [])))"
        "snd (hd (sent (Request okServer initial ''GET'' ''http://h/ok'' [])))"
        okResponse]
    Request_200
    [of cutServer initial "''GET''" "''http://h/cut''" "[]"
        "fst (hd (sent (Request cutServer initial ''GET'' ''http://h/cut'' [])))"
        "snd (hd (sent (Request cutServer initial ''GET'' ''http://h/cut'' [])))"
        cutResponse]
  by (simp add: okServer_def okResponse_def cutServer_def cutResponse_def run_server)

subsection \<open>The provider\<close>

text \<open>
  \<^verbatim>\<open>SetHttpClient(nil)\<close> in a fresh process, then \<^verbatim>\<open>GetHttpClient()\<close>: the stored
  pointer is \<^verbatim>\<open>nil\<close>, so the lazy initialisation runs and the call returns the pooled
  client, not the \<^verbatim>\<open>nil\<close> that was set.
\<close>

theorem SetHttpClient_nil_then_GetHttpClient:
  "run [CallGet] (SetHttpClient None initial) =
     ([Some (PooledClient tr)], \<lparr>client = Some (PooledClient tr), once = True\<rparr>)"
  by (simp add: SetHttpClient_def GetHttpClient_def once_Do_def initial_def)

text \<open>
  C7, amended. For every client \<open>c\<close> that is not \<^verbatim>\<open>nil\<close> and every state of the
  provider (before or after first use), after \<^verbatim>\<open>SetHttpClient(c)\<close> every following
  \<^verbatim>\<open>GetHttpClient()\<close> call returns exactly \<open>c\<close> and leaves the package variables as
  they are: the lazy initialisation does not run, and the guard is not touched.
\<close>

theorem SetHttpClient_then_GetHttpClient:
  "run (replicate n CallGet) (SetHttpClient (Some c) g) =
     (replicate n (Some c), SetHttpClient (Some c) g)"
  by (rule run_gets_stored) (simp add: SetHttpClient_def)

theorem SetHttpClient_then_GetHttpClient_witness:
  "run (replicate 2 CallGet) (SetHttpClient (Some (CustomClient 7)) initial) =
     ([Some (CustomClient 7), Some (CustomClient 7)], \<lparr>client = Some (CustomClient 7), once = False\<rparr>) \<and>
   run (replicate 2 CallGet) (SetHttpClient (Some (CustomClient 7)) (snd (GetHttpClient initial))) =
     ([Some (CustomClient 7), Some (CustomClient 7)], \<lparr>client = Some (CustomClient 7), once = True\<rparr>)"
  using SetHttpClient_then_GetHttpClient [of 2 "CustomClient 7" initial]
    SetHttpClient_then_GetHttpClient [of 2 "CustomClient 7" "snd (GetHttpClient initial)"]
  by (simp add: SetHttpClient_def GetHttpClient_def once_Do_def initial_def eval_nat_numeral)

text \<open>
  A custom client is set before the first \<^verbatim>\<open>GetHttpClient()\<close>, which therefore returns
  it from line 24 and never reaches \<^verbatim>\<open>once.Do\<close>; after \<^verbatim>\<open>SetHttpClient(nil)\<close> the next
  \<^verbatim>\<open>GetHttpClient()\<close> finds the guard unused, builds the pooled client and returns
  it.
\<close>

theorem GetHttpClient_after_custom_then_nil:
  "CallGet \<in> set [CallSet (Some (CustomClient 0)), CallGet] \<and>
   fst (run [CallGet]
         (snd (run ([CallSet (Some (CustomClient 0)), CallGet] @ [CallSet None]) initial)))
     = [Some (PooledClient tr)]"
  by (simp add: SetHttpClient_def GetHttpClient_def once_Do_def initial_def)

text \<open>
  C10, amended. For every call sequence in which some \<^verbatim>\<open>GetHttpClient()\<close> call found
  no client stored (so that it went through the one-time guard) and
  \<^verbatim>\<open>SetHttpClient(nil)\<close> is called later, every \<^verbatim>\<open>GetHttpClient()\<close> call that follows
  returns \<^verbatim>\<open>nil\<close> and changes nothing: the guard is used up, the pooled client is not
  built again, and the provider stays without a client until a client is set.
\<close>

theorem GetHttpClient_nil_after_used_guard:
  assumes "client (snd (run pre g)) = None"
  shows "run (replicate n CallGet) (snd (run (pre @ CallGet # post @ [CallSet None]) g)) =
           (replicate n None, snd (run (pre @ CallGet # post @ [CallSet None]) g)) \<and>
         client (snd (run (pre @ CallGet # post @ [CallSet None]) g)) = None \<and>
         once (snd (run (pre @ CallGet # post @ [CallSet None]) g))"
proof -
  let ?g1 = "snd (GetHttpClient (snd (run pre g)))"
  let ?g2 = "snd (run post ?g1)"
  have end_state: "snd (run (pre @ CallGet # post @ [CallSet None]) g) = SetHttpClient None ?g2"
    by (simp add: run_append split_beta)
  have "once ?g1"
    using assms by (simp add: once_GetHttpClient)
  then have "once ?g2"
    by (rule once_kept_run)
  then have guard: "once (SetHttpClient None ?g2)"
    by (simp add: SetHttpClient_def)
  have none: "client (SetHttpClient None ?g2) = None"
    by (simp add: SetHttpClient_def)
  have "run (replicate n CallGet) (SetHttpClient None ?g2) =
          (replicate n None, SetHttpClient None ?g2)"
    using none guard by (rule run_gets_used_guard)
  then show ?thesis
    using none guard by (simp only: end_state simp_thms)
qed

theorem GetHttpClient_nil_after_used_guard_witness:
  "client (snd (run [] initial)) = None \<and>
   run (replicate 2 CallGet) (snd (run ([] @ CallGet # [] @ [CallSet None]) initial)) =
     ([None, None], \<lparr>client = None, once = True\<rparr>)"
  using GetHttpClient_nil_after_used_guard [of "[]" initial 2 "[]"]
  by (simp add: SetHttpClient_def GetHttpClient_def once_Do_def initial_def eval_nat_numeral)

subsection \<open>Get and Post\<close>

text \<open>
  C2, evaluated where it fails. \<^verbatim>\<open>Get\<close> is called with the context 1 and the caller's
  option \<^verbatim>\<open>WithContext\<close> of the context 2. Line 104 appends the option for the context 1
  after the caller's, so the request carries the context 1; had the option been applied
  before the caller's, as the claim says and as \<^verbatim>\<open>Post\<close> does, the request would carry
  the context 2.
\<close>

theorem Get_context_applied_last:
  "reqContext (snd (hd (sent
      (Get okServer initial (CallerContext 1) ''http://h/ok'' [WithContext (CallerContext 2)])))) =
     context_WithTimeout (CallerContext 1) (5 * Second) \<and>
   reqContext (snd (hd (sent
      (Request okServer initial ''GET'' ''http://h/ok''
         (WithContext (CallerContext 1) # [WithContext (CallerContext 2)]))))) =
     context_WithTimeout (CallerContext 2) (5 * Second) \<and>
   reqContext (snd (hd (sent
      (Post okServer initial (CallerContext 1) ''http://h/ok'' [] [WithContext (CallerContext 2)])))) =
     context_WithTimeout (CallerContext 2) (5 * Second)"
  by (simp add: Get_def Post_def defaultHeader_def okServer_def okResponse_def run_server)

text \<open>
  The same header key set by two options, first to \<open>a\<close>, then to \<open>b\<close>: the request
  carries \<open>b\<close> alone.
\<close>

theorem same_key_twice_carries_last:
  "Header (snd (hd (sent (Request okServer initial ''GET'' ''http://h/headers''
      [WithHeaders (DAList.update ''X-Test'' ''a'' DAList.empty),
       WithHeaders (DAList.update ''X-Test'' ''b'' DAList.empty)])))) ''X-Test'' = [''b'']"
  by (simp add: okServer_def okResponse_def run_server)

text \<open>
  C3, amended. When the options of a \<^verbatim>\<open>Request\<close> call set the same header key in two
  \<^verbatim>\<open>WithHeaders\<close> applications, and the options after the second leave that key alone,
  the later value replaces the earlier one in the options' header map (line 167
  assigns), which keeps one entry for the key. The loop of lines 70 to 72 adds one value
  for every entry of the map, in whatever order: under each canonical name the request
  carries exactly the values of the map's entries whose keys have that name, so values
  accumulate only across different map keys with the same canonical name, and the key
  set twice contributes its later value only, which stands alone under its canonical
  name when no other key of the map shares that name.
\<close>

theorem same_key_later_value_replaces:
  assumes opts: "applyOptions (pre @ WithHeaders h1 # mid @ WithHeaders h2 # post)
                   defaultRequestOptions = Inr reqOpts"
    and h1: "DAList.lookup h1 k = Some v1"
    and h2: "DAList.lookup h2 k = Some v2"
    and keep: "\<forall>opt \<in> set post. \<forall>o1 o2. applyOption opt o1 = Inr o2 \<longrightarrow>
                 DAList.lookup (headers o2) k = DAList.lookup (headers o1) k"
    and sent: "sent (Request w g method url (pre @ WithHeaders h1 # mid @ WithHeaders h2 # post))
                 = [(c, req)]"
  shows "DAList.lookup (headers reqOpts) k = Some v2 \<and>
         filter (\<lambda>kv. fst kv = k) (DAList.impl_of (headers reqOpts)) = [(k, v2)] \<and>
         (\<forall>K. mset (Header req K) =
                mset (map snd (filter (\<lambda>kv. CanonicalMIMEHeaderKey w (fst kv) = K)
                                 (DAList.impl_of (headers reqOpts))))) \<and>
         ((\<forall>kv \<in> set (DAList.impl_of (headers reqOpts)).
              CanonicalMIMEHeaderKey w (fst kv) = CanonicalMIMEHeaderKey w k \<longrightarrow> fst kv = k) \<longrightarrow>
          Header req (CanonicalMIMEHeaderKey w k) = [v2])"
proof -
  have "applyOptions ((pre @ WithHeaders h1 # mid) @ WithHeaders h2 # post) defaultRequestOptions
          = Inr reqOpts"
    using opts by simp
  then have look: "DAList.lookup (headers reqOpts) k = Some v2"
    using h2 keep by (rule applyOptions_WithHeaders_then_kept)
  have entries: "filter (\<lambda>kv. fst kv = k) (DAList.impl_of (headers reqOpts)) = [(k, v2)]"
    using look by (rule entries_of_key)
  obtain reqOpts' where r: "applyOptions (pre @ WithHeaders h1 # mid @ WithHeaders h2 # post)
        defaultRequestOptions = Inr reqOpts'"
    and req: "req = setHeaders w (headers reqOpts')
       \<lparr>Method = (if method = [] then ''GET'' else method), URL = url, Body = data reqOpts',
        Header = (\<lambda>_. []), reqContext = context_WithTimeout (ctx reqOpts') (timeout reqOpts')\<rparr>"
    using sent_request [OF sent] by blast
  have same_opts: "reqOpts' = reqOpts"
    using r opts by simp
  have carried: "mset (Header req K) =
      mset (map snd (filter (\<lambda>kv. CanonicalMIMEHeaderKey w (fst kv) = K)
                       (DAList.impl_of (headers reqOpts))))" for K
    using req same_opts by (simp add: mset_Header_setHeaders)
  have alone: "Header req (CanonicalMIMEHeaderKey w k) = [v2]"
    if only: "\<forall>kv \<in> set (DAList.impl_of (headers reqOpts)).
                CanonicalMIMEHeaderKey w (fst kv) = CanonicalMIMEHeaderKey w k \<longrightarrow> fst kv = k"
  proof -
    have "filter (\<lambda>kv. CanonicalMIMEHeaderKey w (fst kv) = CanonicalMIMEHeaderKey w k)
            (DAList.impl_of (headers reqOpts)) =
          filter (\<lambda>kv. fst kv = k) (DAList.impl_of (headers reqOpts))"
      using only by (intro filter_cong) auto
    then have "filter (\<lambda>kv. CanonicalMIMEHeaderKey w (fst kv) = CanonicalMIMEHeaderKey w k)
            (DAList.impl_of (headers reqOpts)) = [(k, v2)]"
      using entries by simp
    then have "Header (setHeaders w (headers reqOpts)
       \<lparr>Method = (if method = [] then ''GET'' else method), URL = url, Body = data reqOpts,
        Header = (\<lambda>_. []), reqContext = context_WithTimeout (ctx reqOpts) (timeout reqOpts)\<rparr>)
        (CanonicalMIMEHeaderKey w k) = [] @ [v2]"
      by (simp only: Header_setHeaders_one_key request.simps)
    then show ?thesis
      using req same_opts by simp
  qed
  show ?thesis
    using look entries carried alone by blast
qed


theorem same_key_later_value_replaces_witness:
  "Header (snd (hd (sent (Request okServer initial ''GET'' ''http://h/headers''
      ([] @ WithHeaders (DAList.update ''X-Test'' ''a'' DAList.empty) # [] @
       WithHeaders (DAList.update ''X-Test'' ''b'' DAList.empty) # [WithTimeout Second])))))
     (CanonicalMIMEHeaderKey okServer ''X-Test'') = [''b''] \<and>
   mset (Header (snd (hd (sent (Request foldingServer initial ''GET'' ''http://h/headers''
      ([] @ WithHeaders (DAList.update ''X-Test'' ''a'' DAList.empty) # [] @
       WithHeaders (DAList.update ''x-test'' ''c'' (DAList.update ''X-Test'' ''b'' DAList.empty)) #
       [WithTimeout Second]))))) ''X-Test'') = {#''b'', ''c''#} \<and>
   Header (snd (hd (sent (Request foldingServer initial ''GET'' ''http://h/headers''
      ([] @ WithHeaders (DAList.update ''X-Test'' ''a'' DAList.empty) # [] @
       WithHeaders (DAList.update ''x-test'' ''c'' (DAList.update ''X-Test'' ''b'' DAList.empty)) #
       [WithTimeout Second]))))) ''X-Test'' = [''c'', ''b'']"
proof -
  let ?h1 = "DAList.update ''X-Test'' ''a'' DAList.empty"
  let ?h2 = "DAList.update ''X-Test'' ''b'' DAList.empty"
  let ?h3 = "DAList.update ''x-test'' ''c'' (DAList.update ''X-Test'' ''b'' DAList.empty)"
  let ?r = "Request okServer initial ''GET'' ''http://h/headers''
              ([] @ WithHeaders ?h1 # [] @ WithHeaders ?h2 # [WithTimeout Second])"
  let ?s = "Request foldingServer initial ''GET'' ''http://h/headers''
              ([] @ WithHeaders ?h1 # [] @ WithHeaders ?h3 # [WithTimeout Second])"
  let ?o = "defaultRequestOptions\<lparr>timeout := Second, headers := ?h2\<rparr>"
  let ?p = "defaultRequestOptions\<lparr>timeout := Second, headers := ?h3\<rparr>"
  have opts: "applyOptions ([] @ WithHeaders ?h1 # [] @ WithHeaders ?h2 # [WithTimeout Second])
                defaultRequestOptions = Inr ?o"
    by (simp add: WithHeaders_def WithTimeout_def assignAll_def defaultRequestOptions_def
        alist_eq_iff DAList.update.rep_eq DAList.empty.rep_eq)
  have opts': "applyOptions ([] @ WithHeaders ?h1 # [] @ WithHeaders ?h3 # [WithTimeout Second])
                defaultRequestOptions = Inr ?p"
    by (simp add: WithHeaders_def WithTimeout_def assignAll_def defaultRequestOptions_def
        alist_eq_iff DAList.update.rep_eq DAList.empty.rep_eq)
  have h1: "DAList.lookup ?h1 ''X-Test'' = Some ''a''"
    by simp
  have h2: "DAList.lookup ?h2 ''X-Test'' = Some ''b''"
    by simp
  have h3: "DAList.lookup ?h3 ''X-Test'' = Some ''b''"
    by (simp add: DAList.lookup_update)
  have keep: "\<forall>opt \<in> set [WithTimeout Second]. \<forall>o1 o2. applyOption opt o1 = Inr o2 \<longrightarrow>
      DAList.lookup (headers o2) ''X-Test'' = DAList.lookup (headers o1) ''X-Test''"
    by (auto simp: WithTimeout_def)
  have sent: "sent ?r = [(fst (hd (sent ?r)), snd (hd (sent ?r)))]"
    by (simp add: okServer_def okResponse_def run_server WithTimeout_def)
  have sent': "sent ?s = [(fst (hd (sent ?s)), snd (hd (sent ?s)))]"
    by (simp add: foldingServer_def okServer_def okResponse_def run_server WithTimeout_def)
  have only: "\<forall>kv \<in> set (DAList.impl_of (headers ?o)).
      CanonicalMIMEHeaderKey okServer (fst kv) = CanonicalMIMEHeaderKey okServer ''X-Test''
        \<longrightarrow> fst kv = ''X-Test''"
    by (simp add: okServer_def server_def)
  note A = same_key_later_value_replaces [OF opts h1 h2 keep sent]
  note B = same_key_later_value_replaces [OF opts' h1 h3 keep sent']
  have a: "Header (snd (hd (sent ?r))) (CanonicalMIMEHeaderKey okServer ''X-Test'') = [''b'']"
    using A only by blast
  have "mset (Header (snd (hd (sent ?s))) ''X-Test'') =
      mset (map snd (filter (\<lambda>kv. CanonicalMIMEHeaderKey foldingServer (fst kv) = ''X-Test'')
                       (DAList.impl_of (headers ?p))))"
    using B by blast
  then have b: "mset (Header (snd (hd (sent ?s))) ''X-Test'') = {#''b'', ''c''#}"
    by (simp add: foldingServer_def DAList.update.rep_eq DAList.empty.rep_eq)
  have c: "Header (snd (hd (sent ?s))) ''X-Test'' = [''c'', ''b'']"
    by (simp add: foldingServer_def okServer_def okResponse_def run_server WithTimeout_def)
  show ?thesis
    using a b c by blast
qed




end
